theory Spec2Isabelle
  imports Main "HOL-Library.Multiset" "HOL-Library.Word"
begin

section \<open>The temperature store of simple-temperature-endpoint/temperature_api.go\<close>

text \<open>
  The package keeps, per device identifier, a device type and a slice of data points that
  is re-sorted by timestamp on every insert (\<open>PostTemperature\<close>), and answers range
  queries by two binary searches over that slice (\<open>GetTemperature\<close>).

  The embedding follows the Go source function by function. Calls are modelled as
  running one after the other; the read/write mutex and concurrent callers are outside
  the model.
\<close>

subsection \<open>Data model\<close>

text \<open>
  A \<open>time.Time\<close> is used by the package only through \<open>Before\<close> and \<open>After\<close>, which
  compare instants; an instant is modelled as an integer count of nanoseconds.
  A \<open>float64\<close> temperature is only ever copied, never computed with, so it is modelled
  as its 64-bit pattern.
\<close>

type_synonym Time = int

definition Before :: "Time \<Rightarrow> Time \<Rightarrow> bool" where
  "Before t u \<longleftrightarrow> t < u"

definition After :: "Time \<Rightarrow> Time \<Rightarrow> bool" where
  "After t u \<longleftrightarrow> u < t"

type_synonym float64 = "64 word"

record DataPoint =
  Timestamp :: Time
  Temperature :: float64

record DeviceData =
  DeviceType :: string
  DataPoints :: "DataPoint list"

text \<open>\<open>ResponseBody\<close> embeds \<open>DeviceData\<close> and adds the device identifier.\<close>

record ResponseBody = DeviceData +
  DeviceID :: string

text \<open>
  The store. The zero \<open>TemperatureApi\<close> of Go holds a nil map, on which a write panics;
  the spec rules that state out (\<open>Init\<close> must be called before any other use), and so
  does the model: \<open>Data\<close> is always a map.
\<close>

record TemperatureApi =
  Data :: "string \<rightharpoonup> DeviceData"

definition MaxDataPoints :: nat where
  "MaxDataPoints = 10000"

text \<open>Go's zero values of the two structs (\<open>DeviceData{}\<close>, \<open>ResponseBody{}\<close>).
  A nil slice and an empty slice are both the empty list.\<close>

definition zero_DeviceData :: DeviceData where
  "zero_DeviceData = \<lparr>DeviceType = '''', DataPoints = []\<rparr>"

definition zero_ResponseBody :: ResponseBody where
  "zero_ResponseBody = \<lparr>DeviceType = '''', DataPoints = [], DeviceID = ''''\<rparr>"

subsection \<open>Errors\<close>

text \<open>
  The source builds four errors with \<open>errors.New\<close>; \<open>message\<close> gives the text of each.
  The spec groups them in three kinds (section 7): \<open>kind\<close> is that grouping.
\<close>

datatype error = ErrDeviceIDEmpty | ErrDeviceTypeEmpty | ErrNoData | ErrEndBeforeStart

fun message :: "error \<Rightarrow> string" where
  "message ErrDeviceIDEmpty = ''device ID cannot be empty''"
| "message ErrDeviceTypeEmpty = ''device type cannot be empty''"
| "message ErrNoData = ''no data for this device ID''"
| "message ErrEndBeforeStart = ''end time cannot be before start time''"

datatype error_kind = InvalidInput | NotFound | InvalidRange

fun kind :: "error \<Rightarrow> error_kind" where
  "kind ErrDeviceIDEmpty = InvalidInput"
| "kind ErrDeviceTypeEmpty = InvalidInput"
| "kind ErrNoData = NotFound"
| "kind ErrEndBeforeStart = InvalidRange"

subsection \<open>The library's sort\<close>

text \<open>
  \<open>PostTemperature\<close> calls \<open>sort.Slice\<close> of the Go standard library with the comparison
  "timestamp of i is before timestamp of j". The library promises a sorted permutation
  and nothing about the order of elements that compare equal (the sort is not stable).
  The sort is therefore a parameter \<open>srt\<close> of the model, and \<open>sort_Slice_contract\<close> is
  what the library promises of it.
\<close>

definition less_point :: "DataPoint \<Rightarrow> DataPoint \<Rightarrow> bool" where
  "less_point p q \<longleftrightarrow> Before (Timestamp p) (Timestamp q)"

definition sort_Slice_contract :: "(DataPoint list \<Rightarrow> DataPoint list) \<Rightarrow> bool" where
  "sort_Slice_contract srt \<longleftrightarrow>
     (\<forall>ps. mset (srt ps) = mset ps \<and> sorted_wrt (\<lambda>p q. \<not> less_point q p) (srt ps))"

text \<open>
  One sort that meets the contract, used to run the model on concrete inputs: insertion
  sort, each new element moved left past the elements it is strictly less than.
\<close>

fun insert_point :: "DataPoint \<Rightarrow> DataPoint list \<Rightarrow> DataPoint list" where
  "insert_point p [] = [p]"
| "insert_point p (q # qs) =
     (if less_point p q then p # q # qs else q # insert_point p qs)"

definition insertion_sort :: "DataPoint list \<Rightarrow> DataPoint list" where
  "insertion_sort ps = foldl (\<lambda>acc p. insert_point p acc) [] ps"

subsection \<open>Init and PostTemperature\<close>

definition Init :: "TemperatureApi \<Rightarrow> TemperatureApi" where
  "Init server = server\<lparr>Data := Map.empty\<rparr>"

text \<open>
  \<open>PostTemperature\<close> returns Go's \<open>error\<close> (\<open>None\<close> is \<open>nil\<close>) and the receiver after
  the call. A key that is missing from the map reads as the zero \<open>DeviceData\<close>.
\<close>

definition PostTemperature ::
  "(DataPoint list \<Rightarrow> DataPoint list) \<Rightarrow> TemperatureApi \<Rightarrow> string \<Rightarrow> string \<Rightarrow> Time \<Rightarrow> float64
     \<Rightarrow> error option \<times> TemperatureApi" where
  "PostTemperature srt server sensorID deviceType sampleTime temperature =
     (if sensorID = '''' then (Some ErrDeviceIDEmpty, server)
      else if deviceType = '''' then (Some ErrDeviceTypeEmpty, server)
      else
        let deviceData = (case Data server sensorID of
                            None \<Rightarrow> zero_DeviceData
                          | Some d \<Rightarrow> d);
            deviceData = deviceData\<lparr>DeviceType := deviceType\<rparr>;
            deviceData = deviceData\<lparr>DataPoints :=
                           DataPoints deviceData
                             @ [\<lparr>Timestamp = sampleTime, Temperature = temperature\<rparr>]\<rparr>;
            deviceData = deviceData\<lparr>DataPoints := srt (DataPoints deviceData)\<rparr>
        in (None, server\<lparr>Data := (Data server)(sensorID \<mapsto> deviceData)\<rparr>))"

subsection \<open>GetTemperature\<close>

text \<open>
  \<open>sort.Search n f\<close> of the Go standard library is a binary search: with \<open>i = 0\<close> and
  \<open>j = n\<close>, while \<open>i < j\<close> it tests the midpoint \<open>h\<close> (computed without overflow, so
  it is the exact floor of the mean) and continues in \<open>[h + 1, j)\<close> when \<open>f h\<close> is false
  and in \<open>[i, h)\<close> otherwise; it returns \<open>i\<close>.
\<close>

function Search_loop :: "(nat \<Rightarrow> bool) \<Rightarrow> nat \<Rightarrow> nat \<Rightarrow> nat" where
  "Search_loop f i j =
     (if i < j then
        (let h = (i + j) div 2
         in if \<not> f h then Search_loop f (h + 1) j else Search_loop f i h)
      else i)"
  by pat_completeness auto
termination
  by (relation "measure (\<lambda>(f, i, j). j - i)") auto

declare Search_loop.simps [simp del]

definition Search :: "nat \<Rightarrow> (nat \<Rightarrow> bool) \<Rightarrow> nat" where
  "Search n f = Search_loop f 0 n"

text \<open>
  The slice expression \<open>s[i:j]\<close> panics when \<open>i > j\<close> or \<open>j\<close> is beyond the slice
  (\<open>None\<close>); otherwise it is the elements at the indices \<open>i, ..., j - 1\<close>.
\<close>

definition slice :: "'a list \<Rightarrow> nat \<Rightarrow> nat \<Rightarrow> 'a list option" where
  "slice xs i j = (if i \<le> j \<and> j \<le> length xs then Some (take (j - i) (drop i xs)) else None)"

text \<open>
  \<open>GetTemperature\<close> returns a \<open>ResponseBody\<close> and an \<open>error\<close>, or panics in the slice
  expression. It reads the store and never writes it. The map is read twice in the source
  (the existence check, then the lookup), with the same result. In Go the returned slice
  shares its array with the store; the model returns its elements at the time of the call.
\<close>

datatype outcome = Returns ResponseBody "error option" | Panics

definition GetTemperature :: "TemperatureApi \<Rightarrow> string \<Rightarrow> Time \<Rightarrow> Time \<Rightarrow> outcome" where
  "GetTemperature server deviceID startTime endTime =
     (if deviceID = '''' then Returns zero_ResponseBody (Some ErrDeviceIDEmpty)
      else case Data server deviceID of
        None \<Rightarrow> Returns zero_ResponseBody (Some ErrNoData)
      | Some data \<Rightarrow>
          if Before endTime startTime then Returns zero_ResponseBody (Some ErrEndBeforeStart)
          else if length (DataPoints data) = 0 then
            Returns \<lparr>DeviceType = DeviceType data, DataPoints = [], DeviceID = deviceID\<rparr> None
          else
            let left = Timestamp (DataPoints data ! 0);
                right = Timestamp (DataPoints data ! (length (DataPoints data) - 1))
            in if After startTime right \<or> Before endTime left then Returns zero_ResponseBody None
               else
                 let startIndex = Search (length (DataPoints data))
                                    (\<lambda>i. \<not> Before (Timestamp (DataPoints data ! i)) startTime);
                     endIndex = Search (length (DataPoints data))
                                  (\<lambda>i. After (Timestamp (DataPoints data ! i)) endTime)
                 in (case slice (DataPoints data) startIndex endIndex of
                       None \<Rightarrow> Panics
                     | Some points \<Rightarrow>
                         Returns \<lparr>DeviceType = DeviceType data, DataPoints = points,
                                  DeviceID = deviceID\<rparr> None))"

subsection \<open>Sequences of calls\<close>

text \<open>
  A caller's history is a list of calls. \<open>step\<close> is the effect of one call on the store
  (a query has none), \<open>run\<close> the effect of a history, and \<open>successes\<close> lists, in order,
  the device identifier and device type of every \<open>PostTemperature\<close> call of the history
  that returned no error.
\<close>

datatype call = Record string string Time float64 | Query string Time Time

fun step :: "(DataPoint list \<Rightarrow> DataPoint list) \<Rightarrow> TemperatureApi \<Rightarrow> call \<Rightarrow> TemperatureApi" where
  "step srt server (Record sensorID deviceType sampleTime temperature) =
     snd (PostTemperature srt server sensorID deviceType sampleTime temperature)"
| "step srt server (Query deviceID startTime endTime) = server"

fun run :: "(DataPoint list \<Rightarrow> DataPoint list) \<Rightarrow> TemperatureApi \<Rightarrow> call list \<Rightarrow> TemperatureApi" where
  "run srt server [] = server"
| "run srt server (c # cs) = run srt (step srt server c) cs"

fun successes ::
  "(DataPoint list \<Rightarrow> DataPoint list) \<Rightarrow> TemperatureApi \<Rightarrow> call list \<Rightarrow> (string \<times> string) list" where
  "successes srt server [] = []"
| "successes srt server (Record sensorID deviceType sampleTime temperature # cs) =
     (if fst (PostTemperature srt server sensorID deviceType sampleTime temperature) = None
      then [(sensorID, deviceType)] else [])
     @ successes srt (step srt server (Record sensorID deviceType sampleTime temperature)) cs"
| "successes srt server (Query deviceID startTime endTime # cs) = successes srt server cs"

text \<open>
  A reading is the device type, time and temperature of one \<open>PostTemperature\<close> call;
  \<open>records d rs\<close> is the history that posts the readings \<open>rs\<close>, in order, for the one
  device \<open>d\<close>. \<open>point_of\<close> is the data point a reading is stored as.
\<close>

type_synonym reading = "string \<times> Time \<times> float64"

definition point_of :: "reading \<Rightarrow> DataPoint" where
  "point_of r = (case r of (deviceType, sampleTime, temperature) \<Rightarrow>
                   \<lparr>Timestamp = sampleTime, Temperature = temperature\<rparr>)"

definition time_of :: "reading \<Rightarrow> Time" where
  "time_of r = (case r of (deviceType, sampleTime, temperature) \<Rightarrow> sampleTime)"

definition records :: "string \<Rightarrow> reading list \<Rightarrow> call list" where
  "records sensorID rs =
     map (\<lambda>(deviceType, sampleTime, temperature).
            Record sensorID deviceType sampleTime temperature) rs"

subsection \<open>Notions used to state the properties\<close>

text \<open>The stored sample sequence of a device; empty for a device the store does not hold.\<close>

definition samples :: "TemperatureApi \<Rightarrow> string \<Rightarrow> DataPoint list" where
  "samples server deviceID =
     (case Data server deviceID of None \<Rightarrow> [] | Some d \<Rightarrow> DataPoints d)"

text \<open>
  \<open>boundary n f r\<close>: in \<open>[0, n)\<close> the predicate \<open>f\<close> is false below \<open>r\<close> and true from \<open>r\<close> on.
\<close>

definition boundary :: "nat \<Rightarrow> (nat \<Rightarrow> bool) \<Rightarrow> nat \<Rightarrow> bool" where
  "boundary n f r \<longleftrightarrow> r \<le> n \<and> (\<forall>k<r. \<not> f k) \<and> (\<forall>k. r \<le> k \<and> k < n \<longrightarrow> f k)"

text \<open>
  \<open>last_type log d\<close>: the device type of the last entry of the log \<open>log\<close> (a list of
  device identifier and device type, as \<open>successes\<close> gives) that is for device \<open>d\<close>.
\<close>

definition last_type :: "(string \<times> string) list \<Rightarrow> string \<Rightarrow> string option" where
  "last_type log d =
     (let mine = filter (\<lambda>(i, ty). i = d) log
      in if mine = [] then None else Some (snd (last mine)))"

text \<open>Every device record of the store holds at least one sample.\<close>

definition nonempty_records :: "TemperatureApi \<Rightarrow> bool" where
  "nonempty_records server \<longleftrightarrow> (\<forall>d data. Data server d = Some data \<longrightarrow> DataPoints data \<noteq> [])"

text \<open>Every device record of the store has its samples sorted by timestamp.\<close>

definition sorted_records :: "TemperatureApi \<Rightarrow> bool" where
  "sorted_records server \<longleftrightarrow>
     (\<forall>d data. Data server d = Some data \<longrightarrow> sorted (map Timestamp (DataPoints data)))"

subsection \<open>Concrete stores and histories\<close>

text \<open>
  The scenario of the spec (section 8): device \<open>d1\<close> of type \<open>sensor\<close> with the
  readings 20.0, 20.1 and 20.2 (as IEEE 754 bit patterns) at \<open>t0\<close>, \<open>t0 + 10 s\<close> and
  \<open>t0 + 20 s\<close>, with \<open>t0 = 0\<close> and times in nanoseconds.
\<close>

definition p0 :: DataPoint where
  "p0 = \<lparr>Timestamp = 0, Temperature = 0x4034000000000000\<rparr>"

definition p1 :: DataPoint where
  "p1 = \<lparr>Timestamp = 10000000000, Temperature = 0x403419999999999A\<rparr>"

definition p2 :: DataPoint where
  "p2 = \<lparr>Timestamp = 20000000000, Temperature = 0x4034333333333333\<rparr>"

definition empty_store :: TemperatureApi where
  "empty_store = \<lparr>Data = Map.empty\<rparr>"

definition example_store :: TemperatureApi where
  "example_store =
     \<lparr>Data = [''d1'' \<mapsto> \<lparr>DeviceType = ''sensor'', DataPoints = [p0, p1, p2]\<rparr>]\<rparr>"

text \<open>A store whose device already holds \<open>MaxDataPoints\<close> samples.\<close>

definition full_store :: TemperatureApi where
  "full_store =
     \<lparr>Data = [''d1'' \<mapsto> \<lparr>DeviceType = ''sensor'', DataPoints = replicate 10000 p0\<rparr>]\<rparr>"

text \<open>
  A history with two failing posts (empty identifier, empty type), a query, and two
  successful posts for \<open>d1\<close> under different device types.
\<close>

definition example_calls :: "call list" where
  "example_calls =
     [Record ''d1'' ''sensor'' 20000000000 0x4034333333333333,
      Record '''' ''sensor'' 5 0,
      Query ''d1'' 0 20000000000,
      Record ''d2'' '''' 7 0,
      Record ''d1'' ''probe'' 0 0x4034000000000000]"

text \<open>The readings of the scenario, out of timestamp order.\<close>

definition example_readings :: "reading list" where
  "example_readings =
     [(''sensor'', 20000000000, 0x4034333333333333),
      (''sensor'', 0, 0x4034000000000000),
      (''sensor'', 10000000000, 0x403419999999999A)]"

section \<open>Properties\<close>

subsection \<open>The sort contract\<close>

lemma sorted_wrt_less_point:
  "sorted_wrt (\<lambda>p q. \<not> less_point q p) ps \<longleftrightarrow> sorted (map Timestamp ps)"
  by (simp add: sorted_map less_point_def Before_def not_less)

lemma mset_insert_point: "mset (insert_point p qs) = add_mset p (mset qs)"
  by (induction qs) auto

lemma set_insert_point: "set (insert_point p qs) = insert p (set qs)"
  by (induction qs) auto

lemma sorted_insert_point:
  "sorted (map Timestamp qs) \<Longrightarrow> sorted (map Timestamp (insert_point p qs))"
  by (induction qs) (auto simp: set_insert_point less_point_def Before_def)

lemma mset_foldl_insert_point:
  "mset (foldl (\<lambda>acc p. insert_point p acc) acc ps) = mset acc + mset ps"
  by (induction ps arbitrary: acc) (auto simp: mset_insert_point)

lemma sorted_foldl_insert_point:
  "sorted (map Timestamp acc) \<Longrightarrow>
   sorted (map Timestamp (foldl (\<lambda>acc p. insert_point p acc) acc ps))"
  by (induction ps arbitrary: acc) (auto simp: sorted_insert_point)

lemma insertion_sort_contract: "sort_Slice_contract insertion_sort"
  unfolding sort_Slice_contract_def insertion_sort_def
  by (simp add: sorted_wrt_less_point mset_foldl_insert_point sorted_foldl_insert_point)

lemma contract_mset: "sort_Slice_contract srt \<Longrightarrow> mset (srt ps) = mset ps"
  by (simp add: sort_Slice_contract_def)

lemma contract_sorted: "sort_Slice_contract srt \<Longrightarrow> sorted (map Timestamp (srt ps))"
  by (simp add: sort_Slice_contract_def sorted_wrt_less_point)

lemma contract_length: "sort_Slice_contract srt \<Longrightarrow> length (srt ps) = length ps"
  by (metis contract_mset size_mset)

subsection \<open>PostTemperature: validation, frame and effect\<close>

lemma PostTemperature_success:
  assumes "sensorID \<noteq> ''''" "deviceType \<noteq> ''''"
  shows "PostTemperature srt server sensorID deviceType sampleTime temperature =
    (None, server\<lparr>Data := (Data server)(sensorID \<mapsto>
       \<lparr>DeviceType = deviceType,
        DataPoints = srt (samples server sensorID
                           @ [\<lparr>Timestamp = sampleTime, Temperature = temperature\<rparr>])\<rparr>)\<rparr>)"
proof (cases "Data server sensorID")
  case None
  with assms show ?thesis
    by (simp add: PostTemperature_def samples_def zero_DeviceData_def)
next
  case (Some d)
  with assms show ?thesis
    by (cases d) (simp add: PostTemperature_def samples_def)
qed

lemma PostTemperature_None_iff:
  "fst (PostTemperature srt server sensorID deviceType sampleTime temperature) = None
     \<longleftrightarrow> sensorID \<noteq> '''' \<and> deviceType \<noteq> ''''"
  by (auto simp: PostTemperature_def Let_def)

text \<open>
  C6. In every store, \<open>PostTemperature\<close> returns an error if and only if the device
  identifier or the device type is empty, and that error is of kind \<open>InvalidInput\<close>.
  In particular the number of samples a device holds is never a reason to fail: with a
  non-empty identifier and type the call succeeds also for a device that already holds
  \<open>MaxDataPoints\<close> samples or more. The constant is not read anywhere.
\<close>

theorem PostTemperature_error_iff:
  "(fst (PostTemperature srt server sensorID deviceType sampleTime temperature) \<noteq> None
      \<longleftrightarrow> sensorID = '''' \<or> deviceType = '''')
   \<and> (\<forall>e. fst (PostTemperature srt server sensorID deviceType sampleTime temperature) = Some e
          \<longrightarrow> kind e = InvalidInput)
   \<and> (\<forall>d. Data server sensorID = Some d \<and> MaxDataPoints \<le> length (DataPoints d)
            \<and> sensorID \<noteq> '''' \<and> deviceType \<noteq> ''''
          \<longrightarrow> fst (PostTemperature srt server sensorID deviceType sampleTime temperature) = None)"
  by (auto simp: PostTemperature_def Let_def)

theorem PostTemperature_error_iff_witness:
  "fst (PostTemperature insertion_sort full_store ''d1'' ''sensor'' 5 0x4034000000000000) = None
   \<and> fst (PostTemperature insertion_sort full_store '''' ''sensor'' 5 0x4034000000000000) \<noteq> None
   \<and> kind (the (fst (PostTemperature insertion_sort full_store ''d1'' '''' 5 0x4034000000000000)))
       = InvalidInput"
  using
    PostTemperature_error_iff [of insertion_sort full_store "''d1''" "''sensor''" 5 "0x4034000000000000"]
    PostTemperature_error_iff [of insertion_sort full_store "''''" "''sensor''" 5 "0x4034000000000000"]
    PostTemperature_error_iff [of insertion_sort full_store "''d1''" "''''" 5 "0x4034000000000000"]
  by (simp add: full_store_def MaxDataPoints_def)

text \<open>
  C7. In every store, \<open>PostTemperature\<close> called with an empty device identifier or with
  an empty device type returns an error of kind \<open>InvalidInput\<close> and the store it was
  given, entirely unchanged: no device created, no sample appended, no type updated.
\<close>

theorem PostTemperature_invalid_input_no_mutation:
  assumes "sensorID = '''' \<or> deviceType = ''''"
  shows "\<exists>e. PostTemperature srt server sensorID deviceType sampleTime temperature
               = (Some e, server) \<and> kind e = InvalidInput"
  using assms by (auto simp: PostTemperature_def)

theorem PostTemperature_invalid_input_no_mutation_witness:
  "PostTemperature insertion_sort example_store '''' ''sensor'' 0 0x4034000000000000
      = (Some ErrDeviceIDEmpty, example_store)
   \<and> PostTemperature insertion_sort example_store ''d1'' '''' 0 0x4034000000000000
      = (Some ErrDeviceTypeEmpty, example_store)"
  using
    PostTemperature_invalid_input_no_mutation
      [of "''''" "''sensor''" insertion_sort example_store 0 "0x4034000000000000"]
    PostTemperature_invalid_input_no_mutation
      [of "''d1''" "''''" insertion_sort example_store 0 "0x4034000000000000"]
  by (auto simp: PostTemperature_def)

text \<open>
  C10. In every store, a \<open>PostTemperature\<close> call for device \<open>d\<close> that returns no error
  leaves the entry of every other device identifier as it was, and makes the sample
  sequence of \<open>d\<close> exactly one longer: the stored samples afterwards are, as a multiset,
  the samples before plus the new one. A new sample whose timestamp is already stored is
  thus kept beside the old one, neither dropped nor written over it.
\<close>

theorem PostTemperature_frame_and_count:
  assumes "sort_Slice_contract srt"
    and "PostTemperature srt server sensorID deviceType sampleTime temperature = (None, server')"
  shows "(\<forall>d. d \<noteq> sensorID \<longrightarrow> Data server' d = Data server d)
       \<and> length (samples server' sensorID) = length (samples server sensorID) + 1
       \<and> mset (samples server' sensorID)
           = add_mset \<lparr>Timestamp = sampleTime, Temperature = temperature\<rparr>
               (mset (samples server sensorID))"
proof -
  from assms(2) have ok: "sensorID \<noteq> ''''" "deviceType \<noteq> ''''"
    using PostTemperature_None_iff [of srt server sensorID deviceType sampleTime temperature]
    by auto
  from PostTemperature_success [OF ok, of srt server sampleTime temperature] assms(2)
  have s': "server' = server\<lparr>Data := (Data server)(sensorID \<mapsto>
       \<lparr>DeviceType = deviceType,
        DataPoints = srt (samples server sensorID
                           @ [\<lparr>Timestamp = sampleTime, Temperature = temperature\<rparr>])\<rparr>)\<rparr>"
    by simp
  show ?thesis
    by (simp add: s' samples_def contract_mset [OF assms(1)] contract_length [OF assms(1)])
qed

theorem PostTemperature_frame_and_count_witness:
  "length (samples (snd (PostTemperature insertion_sort example_store ''d1'' ''sensor''
                           10000000000 0x4034000000000000)) ''d1'') = 4
   \<and> Data (snd (PostTemperature insertion_sort example_store ''d1'' ''sensor''
                   10000000000 0x4034000000000000)) ''d2'' = None"
  using PostTemperature_frame_and_count
      [OF insertion_sort_contract,
        of example_store "''d1''" "''sensor''" 10000000000 "0x4034000000000000"
          "snd (PostTemperature insertion_sort example_store ''d1'' ''sensor''
                  10000000000 0x4034000000000000)"]
  by (simp add: PostTemperature_success example_store_def samples_def)

subsection \<open>The binary search\<close>

lemma Search_loop_stop: "\<not> i < j \<Longrightarrow> Search_loop f i j = i"
  by (subst Search_loop.simps) simp

lemma Search_loop_right:
  "i < j \<Longrightarrow> \<not> f ((i + j) div 2) \<Longrightarrow> Search_loop f i j = Search_loop f ((i + j) div 2 + 1) j"
  by (subst Search_loop.simps) (simp add: Let_def)

lemma Search_loop_left:
  "i < j \<Longrightarrow> f ((i + j) div 2) \<Longrightarrow> Search_loop f i j = Search_loop f i ((i + j) div 2)"
  by (subst Search_loop.simps) (simp add: Let_def)

lemma Search_loop_boundary:
  assumes "\<forall>a b. a \<le> b \<and> b < n \<and> f a \<longrightarrow> f b"
    and "i \<le> j" "j \<le> n"
    and "\<forall>k<i. \<not> f k"
    and "\<forall>k. j \<le> k \<and> k < n \<longrightarrow> f k"
  shows "boundary n f (Search_loop f i j)"
  using assms
proof (induction f i j rule: Search_loop.induct)
  case (1 f i j)
  show ?case
  proof (cases "i < j")
    case False
    then have "Search_loop f i j = i" by (rule Search_loop_stop)
    moreover from False "1.prems"(2) have "i = j" by simp
    ultimately show ?thesis using "1.prems"(3,4,5) by (simp add: boundary_def)
  next
    case True
    define h where "h = (i + j) div 2"
    have h: "i \<le> h" "h < j" using True by (simp_all add: h_def)
    have hn: "h < n" using h(2) "1.prems"(3) by simp
    show ?thesis
    proof (cases "f h")
      case False
      have lo: "\<forall>k<h + 1. \<not> f k"
      proof (intro allI impI)
        fix k assume "k < h + 1"
        then have "k \<le> h" by simp
        show "\<not> f k"
        proof
          assume "f k"
          with \<open>k \<le> h\<close> hn "1.prems"(1) have "f h" by blast
          with False show False by simp
        qed
      qed
      have eq: "Search_loop f i j = Search_loop f (h + 1) j"
        unfolding h_def using True False [unfolded h_def] by (rule Search_loop_right)
      have "h + 1 \<le> j" using h(2) by simp
      from "1.IH"(1) [OF True h_def False "1.prems"(1) this "1.prems"(3) lo "1.prems"(5)]
      show ?thesis unfolding eq .
    next
      case fh: True
      have hi: "\<forall>k. h \<le> k \<and> k < n \<longrightarrow> f k"
      proof (intro allI impI)
        fix k assume "h \<le> k \<and> k < n"
        with fh "1.prems"(1) show "f k" by blast
      qed
      have eq: "Search_loop f i j = Search_loop f i h"
        unfolding h_def using True fh [unfolded h_def] by (rule Search_loop_left)
      have "h \<le> n" using hn by simp
      have nn: "\<not> \<not> f h" using fh by simp
      from "1.IH"(2) [OF True h_def nn "1.prems"(1) h(1) \<open>h \<le> n\<close> "1.prems"(4) hi]
      show ?thesis unfolding eq .
    qed
  qed
qed

lemma Search_boundary:
  assumes "\<forall>a b. a \<le> b \<and> b < n \<and> f a \<longrightarrow> f b"
  shows "boundary n f (Search n f)"
  unfolding Search_def by (rule Search_loop_boundary [OF assms]) auto


lemma boundary_slice_filter:
  assumes lo: "boundary (length ps) (\<lambda>i. \<not> Before (Timestamp (ps ! i)) s) a"
    and hi: "boundary (length ps) (\<lambda>i. After (Timestamp (ps ! i)) e) b"
    and se: "s \<le> e"
  shows "a \<le> b"
    and "take (b - a) (drop a ps) = filter (\<lambda>p. s \<le> Timestamp p \<and> Timestamp p \<le> e) ps"
proof -
  let ?P = "\<lambda>p. s \<le> Timestamp p \<and> Timestamp p \<le> e"
  from lo have an: "a \<le> length ps"
    and below: "\<And>k. k < a \<Longrightarrow> Timestamp (ps ! k) < s"
    and above: "\<And>k. a \<le> k \<Longrightarrow> k < length ps \<Longrightarrow> s \<le> Timestamp (ps ! k)"
    by (auto simp: boundary_def Before_def)
  from hi have bn: "b \<le> length ps"
    and within: "\<And>k. k < b \<Longrightarrow> Timestamp (ps ! k) \<le> e"
    and beyond: "\<And>k. b \<le> k \<Longrightarrow> k < length ps \<Longrightarrow> e < Timestamp (ps ! k)"
    by (auto simp: boundary_def After_def not_less)
  show ab: "a \<le> b"
  proof (rule ccontr)
    assume "\<not> a \<le> b"
    then have "b < a" by simp
    with an have "b < length ps" by simp
    from below [OF \<open>b < a\<close>] beyond [OF order_refl \<open>b < length ps\<close>] se
    show False by simp
  qed
  have split: "ps = take a ps @ take (b - a) (drop a ps) @ drop b ps"
  proof -
    have "drop b ps = drop (b - a) (drop a ps)" using ab by simp
    then have "take a ps @ take (b - a) (drop a ps) @ drop b ps
                 = take a ps @ (take (b - a) (drop a ps) @ drop (b - a) (drop a ps))"
      by (simp only:)
    also have "\<dots> = ps" by (simp only: append_take_drop_id)
    finally show ?thesis by (rule sym)
  qed
  have f1: "filter ?P (take a ps) = []"
  proof -
    have "\<not> ?P p" if "p \<in> set (take a ps)" for p
    proof -
      from that obtain k where "k < a" "k < length ps" "p = ps ! k"
        by (auto simp: in_set_conv_nth)
      with below [of k] show ?thesis by simp
    qed
    then show ?thesis by (simp add: filter_empty_conv)
  qed
  have f3: "filter ?P (drop b ps) = []"
  proof -
    have "\<not> ?P p" if "p \<in> set (drop b ps)" for p
    proof -
      from that obtain k where k: "k < length ps - b" "p = ps ! (b + k)"
        by (auto simp: in_set_conv_nth)
      from k(1) have "b + k < length ps" by simp
      from beyond [OF _ this] k(2) show ?thesis by simp
    qed
    then show ?thesis by (simp add: filter_empty_conv)
  qed
  have f2: "filter ?P (take (b - a) (drop a ps)) = take (b - a) (drop a ps)"
  proof -
    have "?P p" if "p \<in> set (take (b - a) (drop a ps))" for p
    proof -
      from that obtain k where k: "k < b - a" "p = ps ! (a + k)"
        using bn by (auto simp: in_set_conv_nth)
      then have "a + k < b" "a \<le> a + k" by simp_all
      moreover from this bn have "a + k < length ps" by simp
      ultimately show ?thesis using above [of "a + k"] within [of "a + k"] k(2) by simp
    qed
    then show ?thesis by (simp add: filter_id_conv)
  qed
  have "filter ?P ps = filter ?P (take a ps @ take (b - a) (drop a ps) @ drop b ps)"
    using split by simp
  also have "\<dots> = take (b - a) (drop a ps)"
    by (simp only: filter_append f1 f2 f3 append_Nil append_Nil2)
  finally show "take (b - a) (drop a ps) = filter ?P ps" by simp
qed

lemma sorted_lower_mono:
  assumes "sorted (map Timestamp ps)"
  shows "\<forall>a b. a \<le> b \<and> b < length ps \<and> \<not> Before (Timestamp (ps ! a)) s
           \<longrightarrow> \<not> Before (Timestamp (ps ! b)) s"
proof (intro allI impI)
  fix a b assume h: "a \<le> b \<and> b < length ps \<and> \<not> Before (Timestamp (ps ! a)) s"
  then have "map Timestamp ps ! a \<le> map Timestamp ps ! b"
    using assms by (intro sorted_nth_mono) simp_all
  with h show "\<not> Before (Timestamp (ps ! b)) s" by (simp add: Before_def)
qed

lemma sorted_upper_mono:
  assumes "sorted (map Timestamp ps)"
  shows "\<forall>a b. a \<le> b \<and> b < length ps \<and> After (Timestamp (ps ! a)) e
           \<longrightarrow> After (Timestamp (ps ! b)) e"
proof (intro allI impI)
  fix a b assume h: "a \<le> b \<and> b < length ps \<and> After (Timestamp (ps ! a)) e"
  then have "map Timestamp ps ! a \<le> map Timestamp ps ! b"
    using assms by (intro sorted_nth_mono) simp_all
  with h show "After (Timestamp (ps ! b)) e" by (simp add: After_def)
qed

lemma sorted_slice:
  assumes "sorted (map Timestamp ps)" and "s \<le> e"
  shows "slice ps (Search (length ps) (\<lambda>i. \<not> Before (Timestamp (ps ! i)) s))
                  (Search (length ps) (\<lambda>i. After (Timestamp (ps ! i)) e))
         = Some (filter (\<lambda>p. s \<le> Timestamp p \<and> Timestamp p \<le> e) ps)"
proof -
  let ?a = "Search (length ps) (\<lambda>i. \<not> Before (Timestamp (ps ! i)) s)"
  let ?b = "Search (length ps) (\<lambda>i. After (Timestamp (ps ! i)) e)"
  have lo: "boundary (length ps) (\<lambda>i. \<not> Before (Timestamp (ps ! i)) s) ?a"
    by (rule Search_boundary [OF sorted_lower_mono [OF assms(1)]])
  have hi: "boundary (length ps) (\<lambda>i. After (Timestamp (ps ! i)) e) ?b"
    by (rule Search_boundary [OF sorted_upper_mono [OF assms(1)]])
  from hi have bn: "?b \<le> length ps" unfolding boundary_def by (rule conjunct1)
  have ab: "?a \<le> ?b" by (rule boundary_slice_filter(1) [OF lo hi assms(2)])
  have eq: "take (?b - ?a) (drop ?a ps) = filter (\<lambda>p. s \<le> Timestamp p \<and> Timestamp p \<le> e) ps"
    by (rule boundary_slice_filter(2) [OF lo hi assms(2)])
  have "slice ps ?a ?b = Some (take (?b - ?a) (drop ?a ps))"
    unfolding slice_def using ab bn by (simp only: if_True simp_thms)
  then show ?thesis by (simp only: eq)
qed

subsection \<open>GetTemperature: ranges and errors\<close>

lemma GetTemperature_in_range:
  assumes "deviceID \<noteq> ''''"
    and "Data server deviceID = Some data"
    and "DataPoints data \<noteq> []"
    and "sorted (map Timestamp (DataPoints data))"
    and "startTime \<le> endTime"
    and "\<not> After startTime (Timestamp (last (DataPoints data)))"
    and "\<not> Before endTime (Timestamp (hd (DataPoints data)))"
  shows "GetTemperature server deviceID startTime endTime =
           Returns \<lparr>DeviceType = DeviceType data,
                    DataPoints = filter (\<lambda>p. startTime \<le> Timestamp p \<and> Timestamp p \<le> endTime)
                                   (DataPoints data),
                    DeviceID = deviceID\<rparr> None"
proof -
  have nb: "\<not> Before endTime startTime" using assms(5) by (simp add: Before_def)
  have l: "DataPoints data ! (length (DataPoints data) - Suc 0) = last (DataPoints data)"
    using assms(3) by (simp add: last_conv_nth)
  have h: "DataPoints data ! 0 = hd (DataPoints data)"
    using assms(3) by (simp add: hd_conv_nth)
  show ?thesis
    unfolding GetTemperature_def
    by (simp add: assms(1,2,3,6,7) nb l h Let_def sorted_slice [OF assms(4,5)])
qed

lemma example_store_d1:
  "Data example_store ''d1'' = Some \<lparr>DeviceType = ''sensor'', DataPoints = [p0, p1, p2]\<rparr>"
  by (simp add: example_store_def)

text \<open>
  C1. Take any store that holds device \<open>d\<close> with at least one sample, the samples sorted
  non-decreasing by timestamp, and any range with \<open>start \<le> end\<close>, \<open>start\<close> not after
  the last sample's timestamp and \<open>end\<close> not before the first sample's. Then
  \<open>GetTemperature\<close> returns no error, the identifier \<open>d\<close>, the stored device type, and
  exactly the stored samples whose timestamp \<open>t\<close> satisfies \<open>start \<le> t \<le> end\<close>, in
  stored order; these form one contiguous slice of the stored sequence. In particular,
  when \<open>start = end = t\<close> and exactly one stored sample has timestamp \<open>t\<close>, the result
  is that one sample.

  The first assumption is what makes the map a store: the empty identifier is not a key
  (\<open>PostTemperature\<close> refuses it, so no store built from \<open>Init\<close> has it, see
  \<open>run_no_empty_id\<close>), and \<open>GetTemperature\<close> refuses it too.
\<close>

theorem GetTemperature_range_slice:
  assumes "Data server '''' = None"
    and "Data server deviceID = Some data"
    and "DataPoints data \<noteq> []"
    and "sorted (map Timestamp (DataPoints data))"
    and "startTime \<le> endTime"
    and "\<not> After startTime (Timestamp (last (DataPoints data)))"
    and "\<not> Before endTime (Timestamp (hd (DataPoints data)))"
  shows "GetTemperature server deviceID startTime endTime =
           Returns \<lparr>DeviceType = DeviceType data,
                    DataPoints = filter (\<lambda>p. startTime \<le> Timestamp p \<and> Timestamp p \<le> endTime)
                                   (DataPoints data),
                    DeviceID = deviceID\<rparr> None
       \<and> (\<exists>i j. i \<le> j \<and> j \<le> length (DataPoints data)
             \<and> filter (\<lambda>p. startTime \<le> Timestamp p \<and> Timestamp p \<le> endTime) (DataPoints data)
                 = take (j - i) (drop i (DataPoints data)))
       \<and> (\<forall>p. startTime = endTime \<and> filter (\<lambda>q. Timestamp q = startTime) (DataPoints data) = [p]
             \<longrightarrow> GetTemperature server deviceID startTime endTime =
                   Returns \<lparr>DeviceType = DeviceType data, DataPoints = [p],
                            DeviceID = deviceID\<rparr> None)"
proof (intro conjI allI impI)
  let ?ps = "DataPoints data"
  let ?P = "\<lambda>p. startTime \<le> Timestamp p \<and> Timestamp p \<le> endTime"
  show get: "GetTemperature server deviceID startTime endTime =
           Returns \<lparr>DeviceType = DeviceType data, DataPoints = filter ?P ?ps,
                    DeviceID = deviceID\<rparr> None"
    by (rule GetTemperature_in_range [OF _ assms(2-)]) (use assms(1,2) in auto)
  let ?a = "Search (length ?ps) (\<lambda>i. \<not> Before (Timestamp (?ps ! i)) startTime)"
  let ?b = "Search (length ?ps) (\<lambda>i. After (Timestamp (?ps ! i)) endTime)"
  from sorted_slice [OF assms(4,5)]
  have "?a \<le> ?b \<and> ?b \<le> length ?ps \<and> take (?b - ?a) (drop ?a ?ps) = filter ?P ?ps"
    by (simp add: slice_def split: if_splits)
  then show "\<exists>i j. i \<le> j \<and> j \<le> length ?ps \<and> filter ?P ?ps = take (j - i) (drop i ?ps)"
    by (intro exI [of _ ?a] exI [of _ ?b]) simp
  fix p
  assume one: "startTime = endTime \<and> filter (\<lambda>q. Timestamp q = startTime) ?ps = [p]"
  then have "filter ?P ?ps = filter (\<lambda>q. Timestamp q = startTime) ?ps"
    by (intro filter_cong) auto
  with one have "filter ?P ?ps = [p]" by auto
  with get show "GetTemperature server deviceID startTime endTime =
      Returns \<lparr>DeviceType = DeviceType data, DataPoints = [p], DeviceID = deviceID\<rparr> None"
    by simp
qed

theorem GetTemperature_range_slice_witness:
  "GetTemperature example_store ''d1'' 5000000000 15000000000
     = Returns \<lparr>DeviceType = ''sensor'', DataPoints = [p1], DeviceID = ''d1''\<rparr> None
   \<and> GetTemperature example_store ''d1'' 0 10000000000
     = Returns \<lparr>DeviceType = ''sensor'', DataPoints = [p0, p1], DeviceID = ''d1''\<rparr> None
   \<and> GetTemperature example_store ''d1'' 20000000000 20000000000
     = Returns \<lparr>DeviceType = ''sensor'', DataPoints = [p2], DeviceID = ''d1''\<rparr> None"
proof -
  have ne: "Data example_store '''' = None" by (simp add: example_store_def)
  have n: "DataPoints \<lparr>DeviceType = ''sensor'', DataPoints = [p0, p1, p2]\<rparr> \<noteq> []" by simp
  have s: "sorted (map Timestamp
             (DataPoints \<lparr>DeviceType = ''sensor'', DataPoints = [p0, p1, p2]\<rparr>))"
    by (simp add: p0_def p1_def p2_def)
  have a: "GetTemperature example_store ''d1'' 5000000000 15000000000
     = Returns \<lparr>DeviceType = ''sensor'', DataPoints = [p1], DeviceID = ''d1''\<rparr> None"
    using GetTemperature_range_slice
            [OF ne example_store_d1 n s, of 5000000000 15000000000]
    by (simp add: p0_def p1_def p2_def After_def Before_def)
  have b: "GetTemperature example_store ''d1'' 0 10000000000
     = Returns \<lparr>DeviceType = ''sensor'', DataPoints = [p0, p1], DeviceID = ''d1''\<rparr> None"
    using GetTemperature_range_slice
            [OF ne example_store_d1 n s, of 0 10000000000]
    by (simp add: p0_def p1_def p2_def After_def Before_def)
  have c: "GetTemperature example_store ''d1'' 20000000000 20000000000
     = Returns \<lparr>DeviceType = ''sensor'', DataPoints = [p2], DeviceID = ''d1''\<rparr> None"
    using GetTemperature_range_slice
            [OF ne example_store_d1 n s, of 20000000000 20000000000]
    by (simp add: p0_def p1_def p2_def After_def Before_def)
  from a b c show ?thesis by (intro conjI)
qed

text \<open>
  C3, as stated, asks for \<open>InvalidRange\<close> whenever \<open>end\<close> is before \<open>start\<close>, whether or
  not the device exists. \<open>GetTemperature\<close> looks the device up before it compares the
  two times, so for a device the store does not hold the answer is \<open>NotFound\<close>:
\<close>

theorem GetTemperature_invalid_range_unknown_device:
  "''d1'' \<noteq> '''' \<and> Before 0 1
   \<and> GetTemperature empty_store ''d1'' 1 0 = Returns zero_ResponseBody (Some ErrNoData)
   \<and> kind ErrNoData \<noteq> InvalidRange"
  by (simp add: GetTemperature_def empty_store_def Before_def)

text \<open>
  C3, amended. In every store, for every non-empty device identifier that the store
  holds, \<open>GetTemperature\<close> with \<open>end\<close> strictly before \<open>start\<close> returns an error of
  kind \<open>InvalidRange\<close> (and the zero response), whatever samples the device has.
\<close>

theorem GetTemperature_invalid_range:
  assumes "deviceID \<noteq> ''''"
    and "Data server deviceID = Some data"
    and "Before endTime startTime"
  shows "\<exists>e. GetTemperature server deviceID startTime endTime = Returns zero_ResponseBody (Some e)
           \<and> kind e = InvalidRange"
  using assms by (simp add: GetTemperature_def)

theorem GetTemperature_invalid_range_witness:
  "GetTemperature example_store ''d1'' 20000000000 0
     = Returns zero_ResponseBody (Some ErrEndBeforeStart)"
  using GetTemperature_invalid_range [of "''d1''" example_store
      "\<lparr>DeviceType = ''sensor'', DataPoints = [p0, p1, p2]\<rparr>" 0 20000000000]
  by (auto simp: example_store_def Before_def GetTemperature_def)

text \<open>
  C5. Take any store (the empty identifier is not a key, as in C1) that holds device
  \<open>d\<close> with at least one sample, and a range with
  \<open>start \<le> end\<close>. If \<open>start\<close> is strictly after the last sample's timestamp or \<open>end\<close>
  strictly before the first sample's, \<open>GetTemperature\<close> returns no error and the zero
  response: no samples, device identifier and device type unset. Only there: in the
  other case whatever \<open>GetTemperature\<close> returns has no error, carries the identifier
  \<open>d\<close> (which is not empty) and the stored device type.
\<close>

theorem GetTemperature_outside_range:
  assumes "Data server '''' = None"
    and "Data server deviceID = Some data"
    and "DataPoints data \<noteq> []"
    and "startTime \<le> endTime"
  shows "(After startTime (Timestamp (last (DataPoints data)))
          \<or> Before endTime (Timestamp (hd (DataPoints data)))
        \<longrightarrow> GetTemperature server deviceID startTime endTime
              = Returns \<lparr>DeviceType = '''', DataPoints = [], DeviceID = ''''\<rparr> None)
     \<and> (\<not> (After startTime (Timestamp (last (DataPoints data)))
            \<or> Before endTime (Timestamp (hd (DataPoints data))))
        \<longrightarrow> (\<forall>r e. GetTemperature server deviceID startTime endTime = Returns r e
               \<longrightarrow> e = None \<and> DeviceID r = deviceID \<and> DeviceType r = DeviceType data))"
proof -
  have ne: "deviceID \<noteq> ''''" using assms(1,2) by auto
  have nb: "\<not> Before endTime startTime" using assms(4) by (simp add: Before_def)
  have l: "DataPoints data ! (length (DataPoints data) - Suc 0) = last (DataPoints data)"
    using assms(3) by (simp add: last_conv_nth)
  have h: "DataPoints data ! 0 = hd (DataPoints data)"
    using assms(3) by (simp add: hd_conv_nth)
  show ?thesis
    unfolding GetTemperature_def
    by (auto simp: ne assms(2,3) nb l h Let_def zero_ResponseBody_def split: option.splits)
qed

theorem GetTemperature_outside_range_witness:
  "GetTemperature example_store ''d1'' 30000000000 40000000000
     = Returns \<lparr>DeviceType = '''', DataPoints = [], DeviceID = ''''\<rparr> None
   \<and> GetTemperature example_store ''d1'' (- 20) (- 10)
     = Returns \<lparr>DeviceType = '''', DataPoints = [], DeviceID = ''''\<rparr> None
   \<and> (\<exists>r. GetTemperature example_store ''d1'' 5000000000 6000000000 = Returns r None
          \<and> DeviceID r = ''d1'' \<and> DeviceType r = ''sensor'' \<and> DataPoints r = [])"
proof -
  let ?data = "\<lparr>DeviceType = ''sensor'', DataPoints = [p0, p1, p2]\<rparr>"
  have ne: "Data example_store '''' = None" by (simp add: example_store_def)
  have n: "DataPoints ?data \<noteq> []" by simp
  have a: "GetTemperature example_store ''d1'' 30000000000 40000000000
     = Returns \<lparr>DeviceType = '''', DataPoints = [], DeviceID = ''''\<rparr> None"
    using GetTemperature_outside_range [OF ne example_store_d1 n, of 30000000000 40000000000]
    by (simp add: p2_def After_def)
  have b: "GetTemperature example_store ''d1'' (- 20) (- 10)
     = Returns \<lparr>DeviceType = '''', DataPoints = [], DeviceID = ''''\<rparr> None"
    using GetTemperature_outside_range [OF ne example_store_d1 n, of "- 20" "- 10"]
    by (simp add: p0_def Before_def)
  have s: "sorted (map Timestamp (DataPoints ?data))" by (simp add: p0_def p1_def p2_def)
  have ev: "GetTemperature example_store ''d1'' 5000000000 6000000000
              = Returns \<lparr>DeviceType = ''sensor'', DataPoints = [], DeviceID = ''d1''\<rparr> None"
    using GetTemperature_in_range [OF _ example_store_d1 n s, of 5000000000 6000000000]
    by (simp add: p0_def p1_def p2_def After_def Before_def)
  have inside: "\<not> (After 5000000000 (Timestamp (last (DataPoints ?data)))
                   \<or> Before 6000000000 (Timestamp (hd (DataPoints ?data))))"
    by (simp add: p0_def p2_def After_def Before_def)
  from GetTemperature_outside_range [OF ne example_store_d1 n, of 5000000000 6000000000]
    inside ev
  have "DeviceID \<lparr>DeviceType = ''sensor'', DataPoints = [], DeviceID = ''d1''\<rparr> = ''d1''
      \<and> DeviceType \<lparr>DeviceType = ''sensor'', DataPoints = [], DeviceID = ''d1''\<rparr>
          = DeviceType ?data"
    by simp
  with ev have c: "\<exists>r. GetTemperature example_store ''d1'' 5000000000 6000000000 = Returns r None
          \<and> DeviceID r = ''d1'' \<and> DeviceType r = ''sensor'' \<and> DataPoints r = []"
    by simp
  from a b c show ?thesis by (intro conjI)
qed

subsection \<open>Histories\<close>

lemma run_append: "run srt server (xs @ ys) = run srt (run srt server xs) ys"
  by (induction xs arbitrary: server) simp_all

lemma successes_append:
  "successes srt server (xs @ ys)
     = successes srt server xs @ successes srt (run srt server xs) ys"
proof (induction xs arbitrary: server)
  case Nil
  show ?case by simp
next
  case (Cons c cs)
  show ?case by (cases c) (simp_all add: Cons.IH)
qed

lemma step_Record_success:
  assumes "sensorID \<noteq> ''''" "deviceType \<noteq> ''''"
  shows "step srt server (Record sensorID deviceType sampleTime temperature) =
    server\<lparr>Data := (Data server)(sensorID \<mapsto>
       \<lparr>DeviceType = deviceType,
        DataPoints = srt (samples server sensorID
                           @ [\<lparr>Timestamp = sampleTime, Temperature = temperature\<rparr>])\<rparr>)\<rparr>"
  by (simp add: PostTemperature_success [OF assms])

lemma step_Record_failure:
  assumes "sensorID = '''' \<or> deviceType = ''''"
  shows "step srt server (Record sensorID deviceType sampleTime temperature) = server"
  using assms by (auto simp: PostTemperature_def)

lemma dom_step:
  "dom (Data (step srt server c)) = dom (Data server) \<union> fst ` set (successes srt server [c])"
proof (cases c)
  case (Record d ty t v)
  show ?thesis
  proof (cases "d \<noteq> '''' \<and> ty \<noteq> ''''")
    case True
    then show ?thesis
      unfolding Record
      by (simp add: step_Record_success PostTemperature_None_iff del: step.simps)
  next
    case False
    then have "d = '''' \<or> ty = ''''" by simp
    then show ?thesis
      unfolding Record
      by (auto simp: step_Record_failure PostTemperature_None_iff simp del: step.simps)
  qed
next
  case (Query d a b)
  then show ?thesis by simp
qed

lemma dom_run:
  "dom (Data (run srt server calls)) = dom (Data server) \<union> fst ` set (successes srt server calls)"
proof (induction calls arbitrary: server)
  case Nil
  show ?case by simp
next
  case (Cons c cs)
  have "successes srt server (c # cs)
          = successes srt server [c] @ successes srt (step srt server c) cs"
    using successes_append [of srt server "[c]" cs] by simp
  then show ?case
    using Cons.IH [of "step srt server c"] dom_step [of srt server c] by auto
qed

lemma nonempty_records_step:
  assumes "sort_Slice_contract srt" "nonempty_records server"
  shows "nonempty_records (step srt server c)"
proof (cases c)
  case (Record d ty t v)
  show ?thesis
  proof (cases "d \<noteq> '''' \<and> ty \<noteq> ''''")
    case True
    have "srt (samples server d @ [\<lparr>Timestamp = t, Temperature = v\<rparr>]) \<noteq> []"
      using contract_length [OF assms(1), of "samples server d @ [\<lparr>Timestamp = t, Temperature = v\<rparr>]"]
      by auto
    with True assms(2) show ?thesis
      unfolding Record by (simp add: step_Record_success nonempty_records_def del: step.simps)
  next
    case False
    then have "d = '''' \<or> ty = ''''" by simp
    with assms(2) show ?thesis
      unfolding Record by (simp add: step_Record_failure del: step.simps)
  qed
next
  case (Query d a b)
  with assms(2) show ?thesis by simp
qed

lemma nonempty_records_run:
  assumes "sort_Slice_contract srt"
  shows "nonempty_records server \<Longrightarrow> nonempty_records (run srt server calls)"
  by (induction calls arbitrary: server) (simp_all add: nonempty_records_step [OF assms])

lemma successes_ids_nonempty: "'''' \<notin> fst ` set (successes srt server calls)"
proof (induction calls arbitrary: server)
  case Nil
  show ?case by simp
next
  case (Cons c cs)
  show ?case
  proof (cases c)
    case (Record d ty t v)
    then show ?thesis using Cons.IH by (auto simp: PostTemperature_None_iff)
  next
    case (Query d a b)
    then show ?thesis using Cons.IH by simp
  qed
qed

lemma run_no_empty_id: "Data (run srt (Init server) calls) '''' = None"
proof -
  have "'''' \<notin> dom (Data (run srt (Init server) calls))"
    unfolding dom_run using successes_ids_nonempty by (simp add: Init_def)
  then show ?thesis by (simp add: domIff)
qed

lemma example_successes:
  "successes insertion_sort (Init empty_store) example_calls
     = [(''d1'', ''sensor''), (''d1'', ''probe'')]"
  by (simp add: example_calls_def PostTemperature_None_iff)

lemma example_readings_succeed:
  "length (successes insertion_sort empty_store (records ''d1'' example_readings))
     = length example_readings"
  by (simp add: records_def example_readings_def PostTemperature_None_iff)

text \<open>
  In a store reached from \<open>Init\<close> every sample sequence is sorted, and on such a store
  the slice expression of \<open>GetTemperature\<close> is within bounds: no query of a history
  panics, so \<open>step\<close> is right to go on after it.
\<close>

lemma sorted_records_step:
  assumes "sort_Slice_contract srt" "sorted_records server"
  shows "sorted_records (step srt server c)"
proof (cases c)
  case (Record d ty t v)
  show ?thesis
  proof (cases "d \<noteq> '''' \<and> ty \<noteq> ''''")
    case True
    with assms(2) show ?thesis
      unfolding Record
      by (simp add: step_Record_success sorted_records_def contract_sorted [OF assms(1)]
               del: step.simps)
  next
    case False
    then have "d = '''' \<or> ty = ''''" by simp
    with assms(2) show ?thesis
      unfolding Record by (simp add: step_Record_failure del: step.simps)
  qed
next
  case (Query d a b)
  with assms(2) show ?thesis by simp
qed

lemma sorted_records_run:
  assumes "sort_Slice_contract srt"
  shows "sorted_records server \<Longrightarrow> sorted_records (run srt server calls)"
  by (induction calls arbitrary: server) (simp_all add: sorted_records_step [OF assms])

lemma GetTemperature_sorted_no_panic:
  assumes "sorted_records server"
  shows "GetTemperature server deviceID startTime endTime \<noteq> Panics"
proof (cases "Data server deviceID")
  case None
  then show ?thesis by (simp add: GetTemperature_def)
next
  case (Some data)
  with assms have s: "sorted (map Timestamp (DataPoints data))"
    by (simp add: sorted_records_def)
  show ?thesis
  proof (cases "Before endTime startTime")
    case True
    with Some show ?thesis by (simp add: GetTemperature_def)
  next
    case False
    then have "startTime \<le> endTime" by (simp add: Before_def)
    from sorted_slice [OF s this] Some False show ?thesis
      by (simp add: GetTemperature_def Let_def)
  qed
qed

lemma run_never_panics:
  assumes "sort_Slice_contract srt"
  shows "GetTemperature (run srt (Init server) calls) deviceID startTime endTime \<noteq> Panics"
proof -
  have "sorted_records (Init server)" by (simp add: sorted_records_def Init_def)
  from sorted_records_run [OF assms this] show ?thesis
    by (rule GetTemperature_sorted_no_panic)
qed

text \<open>
  C8, as stated, ends with: a query for a device identifier that was never recorded
  returns \<open>NotFound\<close>. The empty identifier is never recorded (every post for it
  fails), and a query for it is refused as \<open>InvalidInput\<close> before the store is read:
\<close>

theorem GetTemperature_empty_id_never_recorded:
  "'''' \<notin> fst ` set (successes insertion_sort (Init empty_store) example_calls)
   \<and> GetTemperature (run insertion_sort (Init empty_store) example_calls) '''' 0 20000000000
       = Returns zero_ResponseBody (Some ErrDeviceIDEmpty)
   \<and> kind ErrDeviceIDEmpty \<noteq> NotFound"
  by (simp add: example_successes GetTemperature_def)

text \<open>
  C8, amended. In every store reached from \<open>Init\<close> by a history of \<open>PostTemperature\<close>
  and \<open>GetTemperature\<close> calls, the keys of the map are exactly the identifiers for
  which a \<open>PostTemperature\<close> call of the history returned no error; every stored
  device record holds at least one sample; and \<open>GetTemperature\<close> for a non-empty
  identifier that is not among them returns an error of kind \<open>NotFound\<close>.
\<close>

theorem store_keys_are_recorded_ids:
  assumes "sort_Slice_contract srt"
  shows "dom (Data (run srt (Init server) calls))
           = fst ` set (successes srt (Init server) calls)
       \<and> (\<forall>d data. Data (run srt (Init server) calls) d = Some data \<longrightarrow> DataPoints data \<noteq> [])
       \<and> (\<forall>d startTime endTime.
            d \<noteq> '''' \<and> d \<notin> fst ` set (successes srt (Init server) calls)
            \<longrightarrow> (\<exists>e. GetTemperature (run srt (Init server) calls) d startTime endTime
                        = Returns zero_ResponseBody (Some e) \<and> kind e = NotFound))"
proof (intro conjI allI impI)
  show keys: "dom (Data (run srt (Init server) calls))
           = fst ` set (successes srt (Init server) calls)"
    unfolding dom_run by (simp add: Init_def)
  have "nonempty_records (Init server)" by (simp add: nonempty_records_def Init_def)
  from nonempty_records_run [OF assms this]
  show "DataPoints data \<noteq> []" if "Data (run srt (Init server) calls) d = Some data" for d data
    using that by (auto simp: nonempty_records_def)
  fix d startTime endTime
  assume h: "d \<noteq> '''' \<and> d \<notin> fst ` set (successes srt (Init server) calls)"
  with keys have "Data (run srt (Init server) calls) d = None" by (auto simp: domIff)
  with h show "\<exists>e. GetTemperature (run srt (Init server) calls) d startTime endTime
                        = Returns zero_ResponseBody (Some e) \<and> kind e = NotFound"
    by (simp add: GetTemperature_def)
qed

theorem store_keys_are_recorded_ids_witness:
  "dom (Data (run insertion_sort (Init empty_store) example_calls)) = {''d1''}
   \<and> (\<exists>data. Data (run insertion_sort (Init empty_store) example_calls) ''d1'' = Some data
          \<and> DataPoints data \<noteq> [])
   \<and> (\<exists>e. GetTemperature (run insertion_sort (Init empty_store) example_calls)
              ''d2'' 0 20000000000 = Returns zero_ResponseBody (Some e)
          \<and> kind e = NotFound)"
proof -
  note t = store_keys_are_recorded_ids [OF insertion_sort_contract, of empty_store example_calls]
  from t [THEN conjunct1]
  have a: "dom (Data (run insertion_sort (Init empty_store) example_calls)) = {''d1''}"
    by (simp add: example_successes)
  then obtain data where
    d: "Data (run insertion_sort (Init empty_store) example_calls) ''d1'' = Some data"
    by blast
  with t [THEN conjunct2, THEN conjunct1] have "DataPoints data \<noteq> []" by blast
  with d have b: "\<exists>data. Data (run insertion_sort (Init empty_store) example_calls) ''d1''
                      = Some data \<and> DataPoints data \<noteq> []"
    by blast
  have "''d2'' \<noteq> ''''
      \<and> ''d2'' \<notin> fst ` set (successes insertion_sort (Init empty_store) example_calls)"
    by (simp add: example_successes)
  with t [THEN conjunct2, THEN conjunct2]
  have c: "\<exists>e. GetTemperature (run insertion_sort (Init empty_store) example_calls)
              ''d2'' 0 20000000000 = Returns zero_ResponseBody (Some e)
          \<and> kind e = NotFound"
    by blast
  from a b c show ?thesis by (intro conjI)
qed

lemma last_type_append:
  "last_type (xs @ ys) d = (case last_type ys d of Some t \<Rightarrow> Some t | None \<Rightarrow> last_type xs d)"
  by (simp add: last_type_def Let_def)

lemma type_step:
  "map_option DeviceType (Data (step srt server c) d)
     = (case last_type (successes srt server [c]) d of
          Some t \<Rightarrow> Some t
        | None \<Rightarrow> map_option DeviceType (Data server d))"
proof (cases c)
  case (Record i ty t v)
  show ?thesis
  proof (cases "i \<noteq> '''' \<and> ty \<noteq> ''''")
    case True
    then show ?thesis
      unfolding Record
      by (simp add: step_Record_success PostTemperature_None_iff last_type_def del: step.simps)
  next
    case False
    then have "i = '''' \<or> ty = ''''" by simp
    then show ?thesis
      unfolding Record
      by (auto simp: step_Record_failure PostTemperature_None_iff last_type_def
               simp del: step.simps)
  qed
next
  case (Query i a b)
  then show ?thesis by (simp add: last_type_def)
qed

lemma type_run:
  "map_option DeviceType (Data (run srt server calls) d)
     = (case last_type (successes srt server calls) d of
          Some t \<Rightarrow> Some t
        | None \<Rightarrow> map_option DeviceType (Data server d))"
proof (induction calls arbitrary: server)
  case Nil
  show ?case by (simp add: last_type_def)
next
  case (Cons c cs)
  have "successes srt server (c # cs)
          = successes srt server [c] @ successes srt (step srt server c) cs"
    using successes_append [of srt server "[c]" cs] by simp
  then show ?case
    using Cons.IH [of "step srt server c"] type_step [of srt server c d]
    by (simp add: last_type_append split: option.splits)
qed

text \<open>
  C9. In every store reached from \<open>Init\<close> by a history of calls, a device is stored
  exactly when some \<open>PostTemperature\<close> call for it returned no error, and its stored
  device type is the type given to the last such call. Moreover, in any store, a post
  with non-empty identifier and type for a device that exists already returns no error
  and leaves the posted type stored, whatever type was stored before.
\<close>

theorem device_type_last_write_wins:
  "map_option DeviceType (Data (run srt (Init server0) calls) d)
     = last_type (successes srt (Init server0) calls) d
   \<and> (\<forall>data. d \<noteq> '''' \<and> deviceType \<noteq> '''' \<and> Data server d = Some data
        \<longrightarrow> fst (PostTemperature srt server d deviceType sampleTime temperature) = None
          \<and> map_option DeviceType
                (Data (snd (PostTemperature srt server d deviceType sampleTime temperature)) d)
              = Some deviceType)"
proof (intro conjI allI impI)
  show "map_option DeviceType (Data (run srt (Init server0) calls) d)
          = last_type (successes srt (Init server0) calls) d"
    unfolding type_run by (simp add: Init_def split: option.splits)
next
  fix data
  assume "d \<noteq> '''' \<and> deviceType \<noteq> '''' \<and> Data server d = Some data"
  then have ok: "d \<noteq> ''''" "deviceType \<noteq> ''''" by simp_all
  show "fst (PostTemperature srt server d deviceType sampleTime temperature) = None"
    by (simp add: PostTemperature_success [OF ok])
  show "map_option DeviceType
          (Data (snd (PostTemperature srt server d deviceType sampleTime temperature)) d)
        = Some deviceType"
    by (simp add: PostTemperature_success [OF ok])
qed


theorem device_type_last_write_wins_witness:
  "map_option DeviceType (Data (run insertion_sort (Init empty_store) example_calls) ''d1'')
     = Some ''probe''
   \<and> fst (PostTemperature insertion_sort example_store ''d1'' ''probe'' 5 0) = None
   \<and> map_option DeviceType
        (Data (snd (PostTemperature insertion_sort example_store ''d1'' ''probe'' 5 0)) ''d1'')
      = Some ''probe''"
  using device_type_last_write_wins
          [of insertion_sort empty_store example_calls "''d1''" "''probe''" example_store 5 0]
  by (simp add: example_successes last_type_def example_store_d1)

lemma successes_le: "length (successes srt server calls) \<le> length calls"
proof (induction calls arbitrary: server)
  case Nil
  show ?case by simp
next
  case (Cons c cs)
  show ?case using Cons.IH [of "step srt server c"] Cons.IH [of server]
    by (cases c) (auto simp del: step.simps)
qed

lemma all_succeed_Cons:
  assumes "length (successes srt server (Record d ty t v # cs)) = length (Record d ty t v # cs)"
  shows "d \<noteq> ''''" "ty \<noteq> ''''"
    and "length (successes srt (step srt server (Record d ty t v)) cs) = length cs"
proof -
  let ?s' = "step srt server (Record d ty t v)"
  have le: "length (successes srt ?s' cs) \<le> length cs" by (rule successes_le)
  have ok: "fst (PostTemperature srt server d ty t v) = None"
  proof (rule ccontr)
    assume "\<not> ?thesis"
    with assms have "length (successes srt ?s' cs) = Suc (length cs)"
      by (simp del: step.simps)
    with le show False by simp
  qed
  then show "d \<noteq> ''''" "ty \<noteq> ''''" by (simp_all add: PostTemperature_None_iff)
  from assms ok show "length (successes srt ?s' cs) = length cs"
    by (simp del: step.simps)
qed

lemma length_records: "length (records d rs) = length rs"
  by (simp add: records_def)

text \<open>What a run of successful calls to one device leaves for that device.\<close>

lemma run_records:
  assumes "sort_Slice_contract srt"
  shows "length (successes srt server (records d rs)) = length rs \<Longrightarrow> rs \<noteq> [] \<Longrightarrow>
         (\<exists>data. Data (run srt server (records d rs)) d = Some data
            \<and> DeviceType data = fst (last rs)
            \<and> sorted (map Timestamp (DataPoints data))
            \<and> mset (DataPoints data) = mset (samples server d) + mset (map point_of rs))
         \<and> d \<noteq> ''''"
proof (induction rs arbitrary: server)
  case Nil
  then show ?case by simp
next
  case (Cons r rs)
  obtain ty t v where r: "r = (ty, t, v)" by (cases r)
  let ?c = "Record d ty t v"
  let ?s' = "step srt server ?c"
  have recs: "records d (r # rs) = ?c # records d rs" by (simp add: records_def r)
  from Cons.prems(1) have all: "length (successes srt server (?c # records d rs))
                                  = length (?c # records d rs)"
    unfolding recs by (simp add: length_records del: successes.simps)
  note ok = all_succeed_Cons(1,2) [OF all]
  have rest: "length (successes srt ?s' (records d rs)) = length rs"
    using all_succeed_Cons(3) [OF all] by (simp add: length_records)
  have s': "?s' = server\<lparr>Data := (Data server)(d \<mapsto>
       \<lparr>DeviceType = ty,
        DataPoints = srt (samples server d @ [\<lparr>Timestamp = t, Temperature = v\<rparr>])\<rparr>)\<rparr>"
    by (rule step_Record_success [OF ok])
  have sam: "samples ?s' d = srt (samples server d @ [point_of r])"
    unfolding s' by (simp add: samples_def point_of_def r)
  show ?case
  proof (cases "rs = []")
    case True
    have "run srt server (records d (r # rs)) = ?s'"
      unfolding recs unfolding True by (simp add: records_def del: step.simps)
    moreover have "Data ?s' d = Some \<lparr>DeviceType = ty,
        DataPoints = srt (samples server d @ [point_of r])\<rparr>"
      unfolding s' by (simp add: point_of_def r)
    ultimately show ?thesis
      using ok(1) True
      by (simp add: r contract_sorted [OF assms] contract_mset [OF assms] del: step.simps)
  next
    case False
    from Cons.IH [OF rest False] obtain data where
      d: "Data (run srt ?s' (records d rs)) d = Some data"
         "DeviceType data = fst (last rs)"
         "sorted (map Timestamp (DataPoints data))"
         "mset (DataPoints data) = mset (samples ?s' d) + mset (map point_of rs)"
      by blast
    have "run srt server (records d (r # rs)) = run srt ?s' (records d rs)"
      by (simp add: recs del: step.simps)
    with d ok(1) False show ?thesis
      by (simp add: sam contract_mset [OF assms] del: step.simps)
  qed
qed

text \<open>
  C2. Take any store and any sequence of \<open>PostTemperature\<close> calls for one device \<open>d\<close>,
  with timestamps in any order, all of which return no error. After each call of the
  sequence (after the first \<open>k\<close> calls, for every \<open>k\<close> from 1 to the length), the
  stored samples of \<open>d\<close> are sorted non-decreasing by timestamp.
\<close>

theorem samples_sorted_after_each_call:
  assumes "sort_Slice_contract srt"
    and "length (successes srt server (records d rs)) = length rs"
    and "0 < k" and "k \<le> length rs"
  shows "sorted (map Timestamp (samples (run srt server (records d (take k rs))) d))"
proof -
  have split: "records d rs = records d (take k rs) @ records d (drop k rs)"
    unfolding records_def by (simp flip: map_append)
  have l1: "length (successes srt server (records d (take k rs))) \<le> length (take k rs)"
    using successes_le [of srt server "records d (take k rs)"] by (simp add: length_records)
  have l2: "length (successes srt (run srt server (records d (take k rs))) (records d (drop k rs)))
              \<le> length (drop k rs)"
    using successes_le [of srt _ "records d (drop k rs)"] by (simp add: length_records)
  have "length (successes srt server (records d (take k rs)))
          + length (successes srt (run srt server (records d (take k rs))) (records d (drop k rs)))
        = length (take k rs) + length (drop k rs)"
    using assms(2) unfolding split successes_append by simp
  with l1 l2 have ok: "length (successes srt server (records d (take k rs))) = length (take k rs)"
    by linarith
  have ne: "take k rs \<noteq> []" using assms(3,4) by auto
  from run_records [OF assms(1) ok ne] show ?thesis
    by (auto simp: samples_def)
qed

theorem samples_sorted_after_each_call_witness:
  "sorted (map Timestamp
     (samples (run insertion_sort empty_store (records ''d1'' (take 2 example_readings))) ''d1''))
   \<and> sorted (map Timestamp
     (samples (run insertion_sort empty_store (records ''d1'' (take 3 example_readings))) ''d1''))"
proof -
  have l: "length example_readings = 3" by (simp add: example_readings_def)
  have "(0::nat) < 2" "2 \<le> length example_readings" by (simp_all add: l)
  note a = samples_sorted_after_each_call
             [OF insertion_sort_contract example_readings_succeed this]
  have "(0::nat) < 3" "3 \<le> length example_readings" by (simp_all add: l)
  note b = samples_sorted_after_each_call
             [OF insertion_sort_contract example_readings_succeed this]
  from a b show ?thesis by (intro conjI)
qed

lemma sorted_distinct_keys_unique:
  assumes "mset ys = mset xs" and "sorted (map Timestamp ys)" and "distinct (map Timestamp xs)"
  shows "ys = sort_key Timestamp xs"
proof -
  let ?zs = "sort_key Timestamp xs"
  have "sort (map Timestamp xs) = map Timestamp ys"
    by (rule properties_for_sort) (simp_all add: assms(1,2))
  moreover have "sort (map Timestamp xs) = map Timestamp ?zs"
    by (rule properties_for_sort) simp_all
  ultimately have eq: "map Timestamp ys = map Timestamp ?zs" by simp
  have "set ys = set xs" using assms(1) by (rule mset_eq_setD)
  moreover have "inj_on Timestamp (set xs)" using assms(3) by (simp add: distinct_map)
  ultimately have "inj_on Timestamp (set ys \<union> set ?zs)" by simp
  with eq show ?thesis by (simp add: inj_on_map_eq_map)
qed

text \<open>
  C4. Take a store that does not hold device \<open>d\<close> yet, and \<open>N \<ge> 1\<close> readings with
  pairwise distinct timestamps, posted for \<open>d\<close> in any order, every post returning no
  error. Then \<open>GetTemperature\<close> for \<open>d\<close> over the range from the least to the
  greatest of the timestamps returns no error, the identifier, the device type of the
  last post, and as samples exactly the \<open>N\<close> posted data points (time and temperature
  as posted) in increasing order of timestamp: \<open>sort_key Timestamp\<close> is the sorted
  permutation of its argument.
\<close>

theorem record_then_query_round_trip:
  assumes "sort_Slice_contract srt"
    and "Data server d = None"
    and "rs \<noteq> []"
    and "length (successes srt server (records d rs)) = length rs"
    and "distinct (map time_of rs)"
  shows "GetTemperature (run srt server (records d rs)) d
           (Min (set (map time_of rs))) (Max (set (map time_of rs)))
         = Returns \<lparr>DeviceType = fst (last rs),
                    DataPoints = sort_key Timestamp (map point_of rs),
                    DeviceID = d\<rparr> None"
proof -
  let ?T = "set (map time_of rs)"
  from run_records [OF assms(1,4,3)] obtain data where
    d: "Data (run srt server (records d rs)) d = Some data"
       "DeviceType data = fst (last rs)"
       "sorted (map Timestamp (DataPoints data))"
       "mset (DataPoints data) = mset (samples server d) + mset (map point_of rs)"
    and ne: "d \<noteq> ''''"
    by blast
  have ms: "mset (DataPoints data) = mset (map point_of rs)"
    using d(4) assms(2) by (simp add: samples_def)
  have times: "map Timestamp (map point_of rs) = map time_of rs"
    by (simp add: point_of_def time_of_def split_def)
  have pts: "DataPoints data = sort_key Timestamp (map point_of rs)"
    by (rule sorted_distinct_keys_unique [OF ms d(3)]) (simp only: times assms(5))
  have nonempty: "DataPoints data \<noteq> []"
    using ms assms(3) by (metis map_is_Nil_conv mset_zero_iff)
  have fin: "finite ?T" "?T \<noteq> {}" using assms(3) by simp_all
  have inT: "Timestamp p \<in> ?T" if "p \<in> set (DataPoints data)" for p
  proof -
    from that have "p \<in> set (map point_of rs)" using ms by (metis mset_eq_setD)
    then have "Timestamp p \<in> set (map Timestamp (map point_of rs))" by auto
    then show ?thesis by (simp only: times)
  qed
  have lo: "Min ?T \<le> Timestamp p" if "p \<in> set (DataPoints data)" for p
    using inT [OF that] fin by (simp only: Min_le)
  have hi: "Timestamp p \<le> Max ?T" if "p \<in> set (DataPoints data)" for p
    using inT [OF that] fin by (simp only: Max_ge)
  have mm: "Min ?T \<le> Max ?T"
  proof -
    have "time_of (hd rs) \<in> ?T" using assms(3) by simp
    with fin(1) have "Min ?T \<le> time_of (hd rs)" "time_of (hd rs) \<le> Max ?T"
      by (simp_all only: Min_le Max_ge)
    then show ?thesis by (rule order_trans)
  qed
  have a: "\<not> After (Min ?T) (Timestamp (last (DataPoints data)))"
    using lo [of "last (DataPoints data)"] nonempty by (simp add: After_def not_less)
  have b: "\<not> Before (Max ?T) (Timestamp (hd (DataPoints data)))"
    using hi [of "hd (DataPoints data)"] nonempty by (simp add: Before_def not_less)
  have all: "filter (\<lambda>p. Min ?T \<le> Timestamp p \<and> Timestamp p \<le> Max ?T) (DataPoints data)
               = DataPoints data"
    using lo hi by (simp add: filter_id_conv)
  from GetTemperature_in_range [OF ne d(1) nonempty d(3) mm a b]
  show ?thesis by (simp only: all d(2) pts [symmetric])
qed

theorem record_then_query_round_trip_witness:
  "GetTemperature (run insertion_sort empty_store (records ''d1'' example_readings)) ''d1''
     0 20000000000
   = Returns \<lparr>DeviceType = ''sensor'', DataPoints = [p0, p1, p2], DeviceID = ''d1''\<rparr> None"
proof -
  have a: "Data empty_store ''d1'' = None" by (simp add: empty_store_def)
  have b: "example_readings \<noteq> []" by (simp add: example_readings_def)
  have c: "distinct (map time_of example_readings)"
    by (simp add: example_readings_def time_of_def)
  have mn: "Min (set (map time_of example_readings)) = 0"
    by (simp add: example_readings_def time_of_def)
  have mx: "Max (set (map time_of example_readings)) = 20000000000"
    by (simp add: example_readings_def time_of_def)
  have ty: "fst (last example_readings) = ''sensor''" by (simp add: example_readings_def)
  have srted: "sort_key Timestamp (map point_of example_readings) = [p0, p1, p2]"
    by (simp add: example_readings_def point_of_def p0_def p1_def p2_def)
  from record_then_query_round_trip
         [OF insertion_sort_contract a b example_readings_succeed c]
  show ?thesis by (simp only: mn mx ty srted)
qed

end
